theory Spec2Isabelle
  imports Complex_Main "HOL-Library.Sublist" "HOL-Library.Multiset"
begin

section \<open>Data model of \<open>fits_align/imgcat.py\<close>\<close>

text \<open>
  The module \<open>imgcat.py\<close> imports the sibling modules \<open>star\<close> and \<open>quad\<close>, which are not
  part of the sources at hand. Their data types are modelled from the specification;
  Python floats are modelled as reals, Python integers as \<open>int\<close>.
\<close>

text \<open>
  Modelled from the spec: the class \<open>star.Star\<close> is missing. Section 3 gives a star a
  position (x, y), a flux and a quality flag (a small integer, 0 the best).
\<close>

record star =
  x :: real
  y :: real
  flux :: real
  flag :: int

text \<open>
  Modelled from the spec: the class \<open>quad.Quad\<close> is missing. Section 3 gives a quad its
  member stars and a numeric invariant descriptor (the attribute \<open>hash\<close>).
\<close>

record quad =
  stars :: "star list"
  hash :: "real list"

text \<open>
  The attributes that \<open>ImgCat.__init__\<close> creates, in its order. The raw catalog is an
  ordered collection of detections (section 6 of the specification); \<open>None\<close> is Python's
  \<open>None\<close>, the default of the constructor's argument \<open>cat\<close>.
\<close>

record imgcat =
  filepath :: string
  name :: string
  hdu :: int
  cat :: "star list option"
  starlist :: "star list"
  mindist :: real
  xlim :: "real \<times> real"
  ylim :: "real \<times> real"
  quadlist :: "quad list"
  quadlevel :: int

section \<open>The escalation step \<open>ImgCat.makemorequads\<close>\<close>

text \<open>
  The generators \<open>quad.makequads1 (starlist, n, d)\<close> and \<open>quad.makequads2 (starlist, f, n, s, d)\<close>
  are missing; they are parameters of the model. The keyword \<open>s\<close> of \<open>makequads2\<close> is passed
  at level 4 only, so it is an option: \<open>None\<close> stands for the generator's own default.
\<close>

type_synonym makequads1_fun = "star list \<Rightarrow> int \<Rightarrow> real \<Rightarrow> quad list"
type_synonym makequads2_fun = "star list \<Rightarrow> int \<Rightarrow> int \<Rightarrow> int option \<Rightarrow> real \<Rightarrow> quad list"

text \<open>
  Modelled from the spec: the function \<open>quad.removeduplicates\<close> is missing. Section 4.3:
  one quad per distinct member-star set, in first-seen order; two quads are duplicates iff
  their member sets are equal as sets.
\<close>

definition members :: "quad \<Rightarrow> star set" where
  "members q = set (stars q)"

fun removeduplicates :: "quad list \<Rightarrow> quad list" where
  "removeduplicates [] = []"
| "removeduplicates (q # qs) =
     q # removeduplicates (filter (\<lambda>r. members r \<noteq> members q) qs)"

text \<open>
  The batch that the \<open>if\<close>/\<open>elif\<close> chain of \<open>makemorequads\<close> hands to \<open>quadlist.extend\<close>;
  \<open>None\<close> is the final \<open>else\<close> branch.
\<close>

definition newquads :: "makequads1_fun \<Rightarrow> makequads2_fun \<Rightarrow> imgcat \<Rightarrow> quad list option" where
  "newquads makequads1 makequads2 c =
     (if quadlevel c = 0 then Some (makequads1 (starlist c) 7 (mindist c))
      else if quadlevel c = 1 then Some (makequads2 (starlist c) 3 5 None (mindist c))
      else if quadlevel c = 2 then Some (makequads2 (starlist c) 6 5 None (mindist c))
      else if quadlevel c = 3 then Some (makequads2 (starlist c) 12 5 None (mindist c))
      else if quadlevel c = 4 then Some (makequads2 (starlist c) 10 6 (Some 3) (mindist c))
      else None)"

text \<open>The method returns the updated object together with its Boolean result.\<close>

definition makemorequads :: "makequads1_fun \<Rightarrow> makequads2_fun \<Rightarrow> imgcat \<Rightarrow> imgcat \<times> bool" where
  "makemorequads makequads1 makequads2 c =
     (case newquads makequads1 makequads2 c of
        None \<Rightarrow> (c, False)
      | Some batch \<Rightarrow>
          (c\<lparr>quadlist := removeduplicates (quadlist c @ batch),
             quadlevel := quadlevel c + 1\<rparr>, True))"

text \<open>Calling the step \<open>k\<close> times in a row, whatever each call returns.\<close>

fun escalate :: "makequads1_fun \<Rightarrow> makequads2_fun \<Rightarrow> nat \<Rightarrow> imgcat \<Rightarrow> imgcat" where
  "escalate makequads1 makequads2 0 c = c"
| "escalate makequads1 makequads2 (Suc k) c =
     escalate makequads1 makequads2 k (fst (makemorequads makequads1 makequads2 c))"

section \<open>The constructor \<open>ImgCat.__init__\<close>\<close>

text \<open>
  \<open>os.path.split\<close> and \<open>os.path.splitext\<close> are the POSIX versions of Python's standard
  library (\<open>posixpath.split\<close>, \<open>genericpath._splitext\<close> with separator \<open>/\<close>, no alternative
  separator and extension separator \<open>.\<close>). \<open>rfind\<close> is \<open>str.rfind\<close> for a single character:
  the highest index of the character, or \<open>-1\<close>.
\<close>

fun rfind :: "char \<Rightarrow> string \<Rightarrow> int" where
  "rfind ch [] = - 1"
| "rfind ch (a # s) =
     (let r = rfind ch s in if 0 \<le> r then r + 1 else if a = ch then 0 else - 1)"

definition rstrip :: "char \<Rightarrow> string \<Rightarrow> string" where
  "rstrip ch s = rev (dropWhile (\<lambda>a. a = ch) (rev s))"

definition path_split :: "string \<Rightarrow> string \<times> string" where
  "path_split p =
     (let i = nat (rfind CHR ''/'' p + 1);
          head = take i p;
          tail = drop i p
      in (if head \<noteq> [] \<and> head \<noteq> replicate (length head) CHR ''/''
          then rstrip CHR ''/'' head else head, tail))"

text \<open>
  The \<open>while\<close> loop of \<open>_splitext\<close> that skips leading dots: \<open>True\<close> when it returns from
  inside (a character other than a dot precedes the last dot), \<open>False\<close> when it runs out.
\<close>

function splitext_loop :: "string \<Rightarrow> int \<Rightarrow> int \<Rightarrow> bool" where
  "splitext_loop p filenameIndex dotIndex =
     (if filenameIndex < dotIndex
      then (if take 1 (drop (nat filenameIndex) p) \<noteq> ''.'' then True
            else splitext_loop p (filenameIndex + 1) dotIndex)
      else False)"
  by pat_completeness auto
termination
  by (relation "measure (\<lambda>(p, i, d). nat (d - i))") auto

declare splitext_loop.simps [simp del]

definition splitext :: "string \<Rightarrow> string \<times> string" where
  "splitext p =
     (let sepIndex = rfind CHR ''/'' p;
          dotIndex = rfind CHR ''.'' p
      in if dotIndex > sepIndex \<and> splitext_loop p (sepIndex + 1) dotIndex
         then (take (nat dotIndex) p, drop (nat dotIndex) p)
         else (p, []))"

definition ImgCat_init :: "string \<Rightarrow> int \<Rightarrow> star list option \<Rightarrow> imgcat" where
  "ImgCat_init fp h ct =
     (let (imgdir, filename) = path_split fp;
          (common, ext) = splitext filename
      in \<lparr>filepath = fp, name = common, hdu = h, cat = ct, starlist = [], mindist = 0,
          xlim = (0, 0), ylim = (0, 0), quadlist = [], quadlevel = 0\<rparr>)"

section \<open>Star list construction \<open>ImgCat.makestarlist\<close>\<close>

text \<open>
  The error taxonomy of section 7 of the specification names \<open>EmptyCatalog\<close>; \<open>ReadError\<close>
  stands for any exception that the catalog reader raises.
\<close>

datatype error = EmptyCatalog | ReadError

text \<open>
  The reader \<open>star.readsexcat (mycat)\<close> and the bounding box \<open>star.area (stars, border)\<close> are
  missing; they are parameters of the model. The reader receives the attribute \<open>cat\<close> as it
  is and may fail; the bounding box returns \<open>(xmin, xmax, ymin, ymax)\<close>.
\<close>

type_synonym readsexcat_fun = "star list option \<Rightarrow> error + star list"
type_synonym area_fun = "star list \<Rightarrow> real \<Rightarrow> real \<times> real \<times> real \<times> real"

text \<open>
  Modelled from the spec: the reader \<open>star.readsexcat\<close> is missing. Section 4.1: stars whose
  quality flag exceeds the threshold are excluded; the threshold is 3 when saturated stars
  are skipped and 7 by default. The reader keeps the catalog order. Without a catalog there
  is nothing to read.
\<close>

definition readsexcat_maxflag :: "int \<Rightarrow> readsexcat_fun" where
  "readsexcat_maxflag maxflag mycat =
     (case mycat of
        None \<Rightarrow> Inl ReadError
      | Some rows \<Rightarrow> Inr (filter (\<lambda>s. flag s \<le> maxflag) rows))"

text \<open>
  Modelled from the spec: the function \<open>star.sortstarlistbyflux\<close> is missing. Section 4.1:
  descending flux, ties in catalog order (a stable sort).
\<close>

definition sortstarlistbyflux :: "star list \<Rightarrow> star list" where
  "sortstarlistbyflux l = sort_key (\<lambda>s. - flux s) l"

text \<open>Python's slice \<open>l[:n]\<close>: a negative \<open>n\<close> counts from the end of the list.\<close>

definition slice_to :: "int \<Rightarrow> 'a list \<Rightarrow> 'a list" where
  "slice_to n l = (if 0 \<le> n then take (nat n) l else take (nat (int (length l) + n)) l)"

text \<open>
  The method assigns \<open>maxflag\<close> from \<open>skipsaturated\<close> and then calls the reader with the
  catalog alone. An exception of the reader leaves the object as it was.
\<close>

definition makestarlist ::
  "readsexcat_fun \<Rightarrow> area_fun \<Rightarrow> bool \<Rightarrow> int \<Rightarrow> imgcat \<Rightarrow> error + imgcat" where
  "makestarlist readsexcat area skipsaturated n c =
     (let maxflag = (if skipsaturated then 3 else 7 :: int) in
      case readsexcat (cat c) of
        Inl e \<Rightarrow> Inl e
      | Inr l \<Rightarrow>
          (let sl = slice_to n (sortstarlistbyflux l);
               (xmin, xmax, ymin, ymax) = area sl (1 / 100)
           in Inr (c\<lparr>starlist := sl, xlim := (xmin, xmax), ylim := (ymin, ymax),
                     mindist := min (min (xmax - xmin) (ymax - ymin) / 10) 30\<rparr>)))"

section \<open>The states of a catalog object\<close>

text \<open>
  The states that the methods produce from a constructed object: \<open>makecat\<close> stores the
  table that it reads from the file, \<open>makestarlist\<close> and \<open>makemorequads\<close> are as above.
\<close>

inductive reachable ::
  "makequads1_fun \<Rightarrow> makequads2_fun \<Rightarrow> readsexcat_fun \<Rightarrow> area_fun \<Rightarrow> imgcat \<Rightarrow> bool"
  for makequads1 makequads2 readsexcat area where
  reach_init: "reachable makequads1 makequads2 readsexcat area (ImgCat_init fp h ct)"
| reach_makecat: "reachable makequads1 makequads2 readsexcat area c \<Longrightarrow>
     reachable makequads1 makequads2 readsexcat area (c\<lparr>cat := Some rows\<rparr>)"
| reach_makestarlist: "reachable makequads1 makequads2 readsexcat area c \<Longrightarrow>
     makestarlist readsexcat area skipsaturated n c = Inr c' \<Longrightarrow>
     reachable makequads1 makequads2 readsexcat area c'"
| reach_makemorequads: "reachable makequads1 makequads2 readsexcat area c \<Longrightarrow>
     reachable makequads1 makequads2 readsexcat area (fst (makemorequads makequads1 makequads2 c))"

section \<open>Properties of the escalation step\<close>

lemma makemorequads_exhausted:
  "5 \<le> quadlevel c \<Longrightarrow> makemorequads mq1 mq2 c = (c, False)"
  by (simp add: makemorequads_def newquads_def)

lemma makemorequads_level_step:
  assumes "0 \<le> quadlevel c" "quadlevel c \<le> 5"
  shows "quadlevel (fst (makemorequads mq1 mq2 c)) = min (quadlevel c + 1) 5"
proof (cases "quadlevel c = 5")
  case True
  then show ?thesis by (simp add: makemorequads_exhausted)
next
  case False
  with assms have "quadlevel c \<in> {0, 1, 2, 3, 4}" by auto
  then show ?thesis
    by (auto simp: makemorequads_def newquads_def)
qed

lemma escalate_level:
  "0 \<le> quadlevel c \<Longrightarrow> quadlevel c \<le> 5 \<Longrightarrow>
   quadlevel (escalate mq1 mq2 k c) = min (quadlevel c + int k) 5"
proof (induction k arbitrary: c)
  case 0
  then show ?case by simp
next
  case (Suc k)
  let ?c = "fst (makemorequads mq1 mq2 c)"
  have l: "quadlevel ?c = min (quadlevel c + 1) 5"
    using Suc.prems by (rule makemorequads_level_step)
  with Suc.prems have "0 \<le> quadlevel ?c" "quadlevel ?c \<le> 5" by auto
  then have "quadlevel (escalate mq1 mq2 k ?c) = min (quadlevel ?c + int k) 5"
    by (rule Suc.IH)
  with l show ?case by auto
qed

lemma ImgCat_init_quadlevel: "quadlevel (ImgCat_init fp h ct) = 0"
  by (simp add: ImgCat_init_def split: prod.splits)

lemma ImgCat_init_example:
  "ImgCat_init ''/data/m51.fits'' h ct =
     \<lparr>filepath = ''/data/m51.fits'', name = ''m51'', hdu = h, cat = ct, starlist = [],
      mindist = 0, xlim = (0, 0), ylim = (0, 0), quadlist = [], quadlevel = 0\<rparr>"
  by (simp add: ImgCat_init_def path_split_def splitext_def splitext_loop.simps rstrip_def)

text \<open>
  Claim C1. From a fresh catalog, \<open>k\<close> calls of \<open>makemorequads\<close> leave \<open>quadlevel\<close> at
  \<open>min k 5\<close>, whatever the generators return. A call at \<open>quadlevel\<close> 5 or more returns
  \<open>False\<close> and the object unchanged: no generator is run, \<open>quadlevel\<close> and \<open>quadlist\<close> stay
  as they are.
\<close>

theorem escalation_monotonicity:
  "quadlevel (escalate mq1 mq2 k (ImgCat_init fp h ct)) = min (int k) 5 \<and>
   (\<forall>c. 5 \<le> quadlevel c \<longrightarrow> makemorequads mq1 mq2 c = (c, False))"
  using escalate_level [of "ImgCat_init fp h ct" mq1 mq2 k]
  by (simp add: ImgCat_init_quadlevel makemorequads_exhausted)

theorem escalation_monotonicity_witness:
  "quadlevel (escalate (\<lambda>l n d. []) (\<lambda>l f n s d. []) 7 (ImgCat_init ''/data/m51.fits'' 0 None)) = 5 \<and>
   5 \<le> quadlevel (escalate (\<lambda>l n d. []) (\<lambda>l f n s d. []) 7 (ImgCat_init ''/data/m51.fits'' 0 None)) \<and>
   makemorequads (\<lambda>l n d. []) (\<lambda>l f n s d. [])
     (escalate (\<lambda>l n d. []) (\<lambda>l f n s d. []) 7 (ImgCat_init ''/data/m51.fits'' 0 None)) =
   (escalate (\<lambda>l n d. []) (\<lambda>l f n s d. []) 7 (ImgCat_init ''/data/m51.fits'' 0 None), False)"
  using escalation_monotonicity [of "\<lambda>l n d. []" "\<lambda>l f n s d. []" 7 "''/data/m51.fits''" 0 None]
  by simp

lemma set_removeduplicates_subset: "set (removeduplicates qs) \<subseteq> set qs"
  by (induction qs rule: removeduplicates.induct) auto

lemma members_removeduplicates:
  "members ` set (removeduplicates qs) = members ` set qs"
proof (induction qs rule: removeduplicates.induct)
  case 1
  then show ?case by simp
next
  case (2 q qs)
  have "members ` set (q # qs) =
        insert (members q) (members ` set (filter (\<lambda>r. members r \<noteq> members q) qs))"
    by auto
  with 2 show ?case by simp
qed

lemma distinct_removeduplicates: "distinct (map members (removeduplicates qs))"
proof (induction qs rule: removeduplicates.induct)
  case 1
  then show ?case by simp
next
  case (2 q qs)
  have "members q \<notin> members ` set (filter (\<lambda>r. members r \<noteq> members q) qs)"
    by auto
  then have "members q \<notin> members ` set (removeduplicates (filter (\<lambda>r. members r \<noteq> members q) qs))"
    by (simp add: members_removeduplicates)
  with 2 show ?case by simp
qed

lemma filter_unique_id:
  "members q \<notin> members ` set qs \<Longrightarrow> filter (\<lambda>r. members r \<noteq> members q) qs = qs"
  by (induction qs) auto

lemma removeduplicates_append:
  "distinct (map members old) \<Longrightarrow>
   removeduplicates (old @ batch) =
   old @ removeduplicates (filter (\<lambda>q. members q \<notin> members ` set old) batch)"
proof (induction old arbitrary: batch)
  case Nil
  then show ?case by simp
next
  case (Cons q old)
  let ?b = "filter (\<lambda>r. members r \<noteq> members q) batch"
  from Cons.prems have nq: "members q \<notin> members ` set old" and d: "distinct (map members old)"
    by auto
  have "removeduplicates ((q # old) @ batch) = q # removeduplicates (old @ ?b)"
    using nq by (simp add: filter_unique_id)
  also have "removeduplicates (old @ ?b) =
             old @ removeduplicates (filter (\<lambda>q. members q \<notin> members ` set old) ?b)"
    using d by (rule Cons.IH)
  also have "filter (\<lambda>q. members q \<notin> members ` set old) ?b =
             filter (\<lambda>r. members r \<notin> members ` set (q # old)) batch"
    by (auto intro: filter_cong)
  finally show ?case by simp
qed

lemma removeduplicates_unique_id:
  "distinct (map members qs) \<Longrightarrow> removeduplicates qs = qs"
  using removeduplicates_append [of qs "[]"] by simp

lemma newquads_levels:
  "newquads mq1 mq2 c = Some batch \<longleftrightarrow>
     (quadlevel c = 0 \<and> batch = mq1 (starlist c) 7 (mindist c)) \<or>
     (quadlevel c = 1 \<and> batch = mq2 (starlist c) 3 5 None (mindist c)) \<or>
     (quadlevel c = 2 \<and> batch = mq2 (starlist c) 6 5 None (mindist c)) \<or>
     (quadlevel c = 3 \<and> batch = mq2 (starlist c) 12 5 None (mindist c)) \<or>
     (quadlevel c = 4 \<and> batch = mq2 (starlist c) 10 6 (Some 3) (mindist c))"
  by (auto simp: newquads_def)

lemma makemorequads_success:
  "makemorequads mq1 mq2 c = (c', True) \<longleftrightarrow>
   (\<exists>batch. newquads mq1 mq2 c = Some batch \<and>
      c' = c\<lparr>quadlist := removeduplicates (quadlist c @ batch), quadlevel := quadlevel c + 1\<rparr>)"
  by (auto simp: makemorequads_def split: option.splits)

text \<open>
  Claim C2. At a level \<open>L\<close> from 0 to 4 the step runs the generator with the parameters of
  that level (\<open>makequads1\<close> with \<open>n = 7\<close> at level 0; \<open>makequads2\<close> with \<open>f = 3, 6, 12\<close> and
  \<open>n = 5\<close> at levels 1 to 3, and with \<open>f = 10\<close>, \<open>n = 6\<close>, \<open>s = 3\<close> at level 4; always with
  \<open>d = mindist\<close>), removes the duplicates of the accumulated list extended by the new batch,
  raises the level to \<open>L + 1\<close> and returns \<open>True\<close>. Where the accumulated list has no
  duplicates, the result is that list followed by the quads of the batch whose member set
  is new, each once.
\<close>

theorem escalation_step:
  assumes "0 \<le> quadlevel c" and "quadlevel c \<le> 4"
  shows "\<exists>batch.
     (quadlevel c = 0 \<longrightarrow> batch = mq1 (starlist c) 7 (mindist c)) \<and>
     (quadlevel c = 1 \<longrightarrow> batch = mq2 (starlist c) 3 5 None (mindist c)) \<and>
     (quadlevel c = 2 \<longrightarrow> batch = mq2 (starlist c) 6 5 None (mindist c)) \<and>
     (quadlevel c = 3 \<longrightarrow> batch = mq2 (starlist c) 12 5 None (mindist c)) \<and>
     (quadlevel c = 4 \<longrightarrow> batch = mq2 (starlist c) 10 6 (Some 3) (mindist c)) \<and>
     makemorequads mq1 mq2 c =
       (c\<lparr>quadlist := removeduplicates (quadlist c @ batch), quadlevel := quadlevel c + 1\<rparr>, True) \<and>
     (distinct (map members (quadlist c)) \<longrightarrow>
        removeduplicates (quadlist c @ batch) =
        quadlist c @ removeduplicates (filter (\<lambda>q. members q \<notin> members ` set (quadlist c)) batch))"
proof -
  from assms have "quadlevel c \<in> {0, 1, 2, 3, 4}" by auto
  then obtain batch where b: "newquads mq1 mq2 c = Some batch"
    by (auto simp: newquads_def)
  then have "makemorequads mq1 mq2 c =
       (c\<lparr>quadlist := removeduplicates (quadlist c @ batch), quadlevel := quadlevel c + 1\<rparr>, True)"
    by (simp add: makemorequads_def)
  moreover from b have
     "(quadlevel c = 0 \<longrightarrow> batch = mq1 (starlist c) 7 (mindist c)) \<and>
     (quadlevel c = 1 \<longrightarrow> batch = mq2 (starlist c) 3 5 None (mindist c)) \<and>
     (quadlevel c = 2 \<longrightarrow> batch = mq2 (starlist c) 6 5 None (mindist c)) \<and>
     (quadlevel c = 3 \<longrightarrow> batch = mq2 (starlist c) 12 5 None (mindist c)) \<and>
     (quadlevel c = 4 \<longrightarrow> batch = mq2 (starlist c) 10 6 (Some 3) (mindist c))"
    by (auto simp: newquads_levels)
  ultimately show ?thesis
    using removeduplicates_append [of "quadlist c" batch] by blast
qed

text \<open>
  Claim C7. After a successful step no two quads of \<open>quadlist\<close> have the same member-star
  set, every member set present before is present after, and a list that had no duplicates
  before the step (as in every state of a catalog object, lemma \<open>reachable_quadlist_unique\<close>)
  is a prefix of the list after it: the list is append-only.
\<close>

theorem quadlist_unique_append_only:
  assumes "makemorequads mq1 mq2 c = (c', True)"
  shows "distinct (map members (quadlist c')) \<and>
         members ` set (quadlist c) \<subseteq> members ` set (quadlist c') \<and>
         (distinct (map members (quadlist c)) \<longrightarrow> prefix (quadlist c) (quadlist c'))"
proof -
  from assms obtain batch where
    c': "c' = c\<lparr>quadlist := removeduplicates (quadlist c @ batch), quadlevel := quadlevel c + 1\<rparr>"
    by (auto simp: makemorequads_success)
  have "distinct (map members (quadlist c'))"
    by (simp add: c' distinct_removeduplicates)
  moreover have "members ` set (quadlist c) \<subseteq> members ` set (quadlist c')"
    by (simp add: c' members_removeduplicates image_Un)
  moreover have "prefix (quadlist c) (quadlist c')" if "distinct (map members (quadlist c))"
    using removeduplicates_append [OF that, of batch] by (simp add: c')
  ultimately show ?thesis by blast
qed

text \<open>
  Claim C8. The step changes neither the star list nor \<open>mindist\<close>, \<open>xlim\<close>, \<open>ylim\<close> or
  \<open>name\<close>, whether it returns \<open>True\<close> or \<open>False\<close>. The generators are functions of their
  arguments, as section 4.2 of the specification requires.
\<close>

theorem makemorequads_frame:
  "starlist (fst (makemorequads mq1 mq2 c)) = starlist c \<and>
   mindist (fst (makemorequads mq1 mq2 c)) = mindist c \<and>
   xlim (fst (makemorequads mq1 mq2 c)) = xlim c \<and>
   ylim (fst (makemorequads mq1 mq2 c)) = ylim c \<and>
   name (fst (makemorequads mq1 mq2 c)) = name c"
  by (simp add: makemorequads_def split: option.splits)


theorem escalation_step_witness:
  "0 \<le> quadlevel ((ImgCat_init ''/data/m51.fits'' 0 None)
        \<lparr>starlist := [\<lparr>x = 1, y = 2, flux = 9, flag = 0\<rparr>, \<lparr>x = 3, y = 4, flux = 8, flag = 0\<rparr>,
                      \<lparr>x = 5, y = 6, flux = 7, flag = 0\<rparr>],
         mindist := 20,
         quadlist := [\<lparr>stars = [\<lparr>x = 1, y = 2, flux = 9, flag = 0\<rparr>, \<lparr>x = 3, y = 4, flux = 8, flag = 0\<rparr>],
                      hash = [0]\<rparr>],
         quadlevel := 1\<rparr>) \<and>
   quadlevel ((ImgCat_init ''/data/m51.fits'' 0 None)
        \<lparr>starlist := [\<lparr>x = 1, y = 2, flux = 9, flag = 0\<rparr>, \<lparr>x = 3, y = 4, flux = 8, flag = 0\<rparr>,
                      \<lparr>x = 5, y = 6, flux = 7, flag = 0\<rparr>],
         mindist := 20,
         quadlist := [\<lparr>stars = [\<lparr>x = 1, y = 2, flux = 9, flag = 0\<rparr>, \<lparr>x = 3, y = 4, flux = 8, flag = 0\<rparr>],
                      hash = [0]\<rparr>],
         quadlevel := 1\<rparr>) \<le> 4 \<and>
   distinct (map members
     [\<lparr>stars = [\<lparr>x = 1, y = 2, flux = 9, flag = 0\<rparr>, \<lparr>x = 3, y = 4, flux = 8, flag = 0\<rparr>], hash = [0]\<rparr>]) \<and>
   makemorequads (\<lambda>l n d. [])
     (\<lambda>l f n s d. [\<lparr>stars = rev (take 2 l), hash = [of_int f, of_int n, d]\<rparr>,
                    \<lparr>stars = drop 1 l, hash = [of_int f, of_int n, d]\<rparr>,
                    \<lparr>stars = rev (drop 1 l), hash = [of_int f, of_int n, d]\<rparr>])
     ((ImgCat_init ''/data/m51.fits'' 0 None)
        \<lparr>starlist := [\<lparr>x = 1, y = 2, flux = 9, flag = 0\<rparr>, \<lparr>x = 3, y = 4, flux = 8, flag = 0\<rparr>,
                      \<lparr>x = 5, y = 6, flux = 7, flag = 0\<rparr>],
         mindist := 20,
         quadlist := [\<lparr>stars = [\<lparr>x = 1, y = 2, flux = 9, flag = 0\<rparr>, \<lparr>x = 3, y = 4, flux = 8, flag = 0\<rparr>],
                      hash = [0]\<rparr>],
         quadlevel := 1\<rparr>) =
   ((ImgCat_init ''/data/m51.fits'' 0 None)
        \<lparr>starlist := [\<lparr>x = 1, y = 2, flux = 9, flag = 0\<rparr>, \<lparr>x = 3, y = 4, flux = 8, flag = 0\<rparr>,
                      \<lparr>x = 5, y = 6, flux = 7, flag = 0\<rparr>],
         mindist := 20,
         quadlist := [\<lparr>stars = [\<lparr>x = 1, y = 2, flux = 9, flag = 0\<rparr>, \<lparr>x = 3, y = 4, flux = 8, flag = 0\<rparr>],
                      hash = [0]\<rparr>,
                     \<lparr>stars = [\<lparr>x = 3, y = 4, flux = 8, flag = 0\<rparr>, \<lparr>x = 5, y = 6, flux = 7, flag = 0\<rparr>],
                      hash = [3, 5, 20]\<rparr>],
         quadlevel := 2\<rparr>, True)"
  using escalation_step [of "(ImgCat_init ''/data/m51.fits'' 0 None)
        \<lparr>starlist := [\<lparr>x = 1, y = 2, flux = 9, flag = 0\<rparr>, \<lparr>x = 3, y = 4, flux = 8, flag = 0\<rparr>,
                      \<lparr>x = 5, y = 6, flux = 7, flag = 0\<rparr>],
         mindist := 20,
         quadlist := [\<lparr>stars = [\<lparr>x = 1, y = 2, flux = 9, flag = 0\<rparr>, \<lparr>x = 3, y = 4, flux = 8, flag = 0\<rparr>],
                      hash = [0]\<rparr>],
         quadlevel := 1\<rparr>"
      "\<lambda>l n d. []"
      "\<lambda>l f n s d. [\<lparr>stars = rev (take 2 l), hash = [of_int f, of_int n, d]\<rparr>,
                    \<lparr>stars = drop 1 l, hash = [of_int f, of_int n, d]\<rparr>,
                    \<lparr>stars = rev (drop 1 l), hash = [of_int f, of_int n, d]\<rparr>]"]
  by (simp add: ImgCat_init_example members_def doubleton_eq_iff numeral_2_eq_2)

theorem quadlist_unique_append_only_witness:
  "makemorequads (\<lambda>l n d. [])
     (\<lambda>l f n s d. [\<lparr>stars = rev l, hash = [1]\<rparr>, \<lparr>stars = take 1 l, hash = [2]\<rparr>])
     ((ImgCat_init ''/data/m51.fits'' 0 None)
        \<lparr>starlist := [\<lparr>x = 1, y = 2, flux = 9, flag = 0\<rparr>, \<lparr>x = 3, y = 4, flux = 8, flag = 0\<rparr>],
         quadlist := [\<lparr>stars = [\<lparr>x = 1, y = 2, flux = 9, flag = 0\<rparr>, \<lparr>x = 3, y = 4, flux = 8, flag = 0\<rparr>],
                      hash = [0]\<rparr>],
         quadlevel := 1\<rparr>) =
   ((ImgCat_init ''/data/m51.fits'' 0 None)
        \<lparr>starlist := [\<lparr>x = 1, y = 2, flux = 9, flag = 0\<rparr>, \<lparr>x = 3, y = 4, flux = 8, flag = 0\<rparr>],
         quadlist := [\<lparr>stars = [\<lparr>x = 1, y = 2, flux = 9, flag = 0\<rparr>, \<lparr>x = 3, y = 4, flux = 8, flag = 0\<rparr>],
                      hash = [0]\<rparr>,
                     \<lparr>stars = [\<lparr>x = 1, y = 2, flux = 9, flag = 0\<rparr>], hash = [2]\<rparr>],
         quadlevel := 2\<rparr>, True) \<and>
   distinct (map members
     [\<lparr>stars = [\<lparr>x = 1, y = 2, flux = 9, flag = 0\<rparr>, \<lparr>x = 3, y = 4, flux = 8, flag = 0\<rparr>], hash = [0]\<rparr>]) \<and>
   distinct (map members
     [\<lparr>stars = [\<lparr>x = 1, y = 2, flux = 9, flag = 0\<rparr>, \<lparr>x = 3, y = 4, flux = 8, flag = 0\<rparr>], hash = [0]\<rparr>,
      \<lparr>stars = [\<lparr>x = 1, y = 2, flux = 9, flag = 0\<rparr>], hash = [2]\<rparr>]) \<and>
   prefix
     [\<lparr>stars = [\<lparr>x = 1, y = 2, flux = 9, flag = 0\<rparr>, \<lparr>x = 3, y = 4, flux = 8, flag = 0\<rparr>], hash = [0]\<rparr>]
     [\<lparr>stars = [\<lparr>x = 1, y = 2, flux = 9, flag = 0\<rparr>, \<lparr>x = 3, y = 4, flux = 8, flag = 0\<rparr>], hash = [0]\<rparr>,
      \<lparr>stars = [\<lparr>x = 1, y = 2, flux = 9, flag = 0\<rparr>], hash = [2]\<rparr>]"
proof -
  let ?g1 = "\<lambda>(l::star list) (n::int) (d::real). [] :: quad list"
  let ?g2 = "\<lambda>(l::star list) (f::int) (n::int) (s::int option) (d::real).
               [\<lparr>stars = rev l, hash = [1]\<rparr>, \<lparr>stars = take 1 l, hash = [2::real]\<rparr>]"
  let ?c = "(ImgCat_init ''/data/m51.fits'' 0 None)
        \<lparr>starlist := [\<lparr>x = 1, y = 2, flux = 9, flag = 0\<rparr>, \<lparr>x = 3, y = 4, flux = 8, flag = 0\<rparr>],
         quadlist := [\<lparr>stars = [\<lparr>x = 1, y = 2, flux = 9, flag = 0\<rparr>, \<lparr>x = 3, y = 4, flux = 8, flag = 0\<rparr>],
                      hash = [0]\<rparr>],
         quadlevel := 1\<rparr>"
  have run: "makemorequads ?g1 ?g2 ?c =
    (?c\<lparr>quadlist := [\<lparr>stars = [\<lparr>x = 1, y = 2, flux = 9, flag = 0\<rparr>, \<lparr>x = 3, y = 4, flux = 8, flag = 0\<rparr>],
                      hash = [0]\<rparr>,
                     \<lparr>stars = [\<lparr>x = 1, y = 2, flux = 9, flag = 0\<rparr>], hash = [2]\<rparr>],
         quadlevel := 2\<rparr>, True)"
    by (simp add: makemorequads_def newquads_def ImgCat_init_example members_def insert_commute)
  show ?thesis
    using quadlist_unique_append_only [OF run] run
    by (simp add: ImgCat_init_example)
qed

section \<open>Properties of star list construction\<close>


lemma makestarlist_Inr:
  "makestarlist rd ar sk n c = Inr c' \<longleftrightarrow>
   (\<exists>l. rd (cat c) = Inr l \<and>
      c' = c\<lparr>starlist := slice_to n (sortstarlistbyflux l),
             xlim := (fst (ar (slice_to n (sortstarlistbyflux l)) (1 / 100)),
                      fst (snd (ar (slice_to n (sortstarlistbyflux l)) (1 / 100)))),
             ylim := (fst (snd (snd (ar (slice_to n (sortstarlistbyflux l)) (1 / 100)))),
                      snd (snd (snd (ar (slice_to n (sortstarlistbyflux l)) (1 / 100))))),
             mindist := min (min (fst (snd (ar (slice_to n (sortstarlistbyflux l)) (1 / 100)))
                                   - fst (ar (slice_to n (sortstarlistbyflux l)) (1 / 100)))
                                 (snd (snd (snd (ar (slice_to n (sortstarlistbyflux l)) (1 / 100))))
                                   - fst (snd (snd (ar (slice_to n (sortstarlistbyflux l)) (1 / 100)))))
                             / 10) 30\<rparr>)"
  by (auto simp: makestarlist_def Let_def split: sum.splits prod.splits)

lemma makestarlist_Inl:
  "makestarlist rd ar sk n c = Inl e \<longleftrightarrow> rd (cat c) = Inl e"
  by (auto simp: makestarlist_def Let_def split: sum.splits prod.splits)

lemma makestarlist_quadlist:
  "makestarlist rd ar sk n c = Inr c' \<Longrightarrow> quadlist c' = quadlist c"
  by (auto simp: makestarlist_Inr)

lemma reachable_quadlist_unique:
  "reachable mq1 mq2 rd ar c \<Longrightarrow> distinct (map members (quadlist c))"
proof (induction rule: reachable.induct)
  case (reach_init fp h ct)
  then show ?case by (simp add: ImgCat_init_def split: prod.splits)
next
  case (reach_makecat c rows)
  then show ?case by simp
next
  case (reach_makestarlist c skipsaturated n c')
  then show ?case by (simp add: makestarlist_quadlist)
next
  case (reach_makemorequads c)
  then show ?case
    by (simp add: makemorequads_def distinct_removeduplicates split: option.splits)
qed

text \<open>
  Claim C5. After star list construction, \<open>mindist\<close> is
  \<open>min (min (xmax - xmin, ymax - ymin) / 10, 30)\<close> for the bounding box stored in \<open>xlim\<close> and
  \<open>ylim\<close>, which is the box that \<open>star.area\<close> returns for the built star list with border
  0.01.
\<close>

theorem mindist_formula:
  assumes "makestarlist rd ar sk n c = Inr c'"
  shows "mindist c' =
           min (min (snd (xlim c') - fst (xlim c')) (snd (ylim c') - fst (ylim c')) / 10) 30 \<and>
         (fst (xlim c'), snd (xlim c'), fst (ylim c'), snd (ylim c')) = ar (starlist c') (1 / 100)"
  using assms by (auto simp: makestarlist_Inr)

text \<open>
  Claim C9. Star list construction with \<open>skipsaturated = True\<close> and with
  \<open>skipsaturated = False\<close> gives the same result, for every catalog reader, bounding-box
  function, star-count limit and object: \<open>maxflag\<close> is assigned and never used.
\<close>

theorem skipsaturated_ignored:
  "makestarlist rd ar True n c = makestarlist rd ar False n c"
  by (simp add: makestarlist_def)

lemma sorted_wrt_flux_sort:
  "sorted_wrt (\<lambda>a b. flux b \<le> flux a) (sortstarlistbyflux l)"
proof -
  have "sorted (map (\<lambda>s. - flux s) (sortstarlistbyflux l))"
    by (simp add: sortstarlistbyflux_def)
  then show ?thesis
    by (simp add: sorted_wrt_map)
qed

lemma slice_to_take: "\<exists>m. slice_to n l = take m l"
  by (auto simp: slice_to_def)

lemma slice_to_length: "0 \<le> n \<Longrightarrow> int (length (slice_to n l)) \<le> n"
  by (simp add: slice_to_def)

lemma mset_sortstarlistbyflux: "mset (sortstarlistbyflux l) = mset l"
  by (simp add: sortstarlistbyflux_def)

lemma slice_to_length_eq:
  "length (slice_to n l) = (if 0 \<le> n then min (nat n) (length l) else length l - nat (- n))"
  by (auto simp: slice_to_def)

lemma length_sortstarlistbyflux: "length (sortstarlistbyflux l) = length l"
  by (simp add: sortstarlistbyflux_def)

text \<open>
  Claim C6. The built star list is sorted by non-increasing flux and, for a count
  \<open>n \<ge> 0\<close>, has at most \<open>n\<close> stars. Exactly the excess is dropped: the list has
  \<open>min n len\<close> stars, where \<open>len\<close> is the number of stars that the reader returned (for a
  negative \<open>n\<close> the slice drops the last \<open>- n\<close> stars instead); the kept stars followed by
  the dropped ones are those stars, in non-increasing flux throughout, so that no dropped
  star has more flux than a kept one.
\<close>

theorem starlist_ranked_truncated:
  assumes "makestarlist rd ar sk n c = Inr c'"
  shows "sorted_wrt (\<lambda>a b. flux b \<le> flux a) (starlist c') \<and>
         (0 \<le> n \<longrightarrow> int (length (starlist c')) \<le> n) \<and>
         (\<exists>l dropped. rd (cat c) = Inr l \<and> mset (starlist c' @ dropped) = mset l \<and>
            sorted_wrt (\<lambda>a b. flux b \<le> flux a) (starlist c' @ dropped) \<and>
            length (starlist c') =
              (if 0 \<le> n then min (nat n) (length l) else length l - nat (- n)) \<and>
            (\<forall>k \<in> set (starlist c'). \<forall>d \<in> set dropped. flux d \<le> flux k))"
proof -
  from assms obtain l where l: "rd (cat c) = Inr l"
    and s: "starlist c' = slice_to n (sortstarlistbyflux l)"
    by (auto simp: makestarlist_Inr)
  obtain m where m: "starlist c' = take m (sortstarlistbyflux l)"
    using slice_to_take [of n "sortstarlistbyflux l"] s by auto
  let ?d = "drop m (sortstarlistbyflux l)"
  have srt: "sorted_wrt (\<lambda>a b. flux b \<le> flux a) (take m (sortstarlistbyflux l) @ ?d)"
    by (simp add: sorted_wrt_flux_sort)
  have 1: "sorted_wrt (\<lambda>a b. flux b \<le> flux a) (starlist c')"
    using srt unfolding sorted_wrt_append m by blast
  have 2: "0 \<le> n \<longrightarrow> int (length (starlist c')) \<le> n"
    by (simp add: s slice_to_length)
  have 3: "mset (starlist c' @ ?d) = mset l"
    by (simp add: m mset_sortstarlistbyflux flip: mset_append)
  have 4: "\<forall>k \<in> set (starlist c'). \<forall>d \<in> set ?d. flux d \<le> flux k"
    using srt unfolding sorted_wrt_append m by blast
  have 5: "sorted_wrt (\<lambda>a b. flux b \<le> flux a) (starlist c' @ ?d)"
    using srt by (simp only: m)
  have 6: "length (starlist c') =
             (if 0 \<le> n then min (nat n) (length l) else length l - nat (- n))"
    by (simp only: s slice_to_length_eq length_sortstarlistbyflux)
  from l 1 2 3 4 5 6 show ?thesis by blast
qed

theorem mindist_formula_witness:
  "makestarlist (readsexcat_maxflag 7) (\<lambda>l b. (0, 400, 0, 200)) False 200
     (ImgCat_init ''/data/m51.fits'' 0
        (Some [\<lparr>x = 10, y = 20, flux = 500, flag = 0\<rparr>, \<lparr>x = 30, y = 40, flux = 900, flag = 0\<rparr>])) =
   Inr ((ImgCat_init ''/data/m51.fits'' 0
        (Some [\<lparr>x = 10, y = 20, flux = 500, flag = 0\<rparr>, \<lparr>x = 30, y = 40, flux = 900, flag = 0\<rparr>]))
        \<lparr>starlist := [\<lparr>x = 30, y = 40, flux = 900, flag = 0\<rparr>, \<lparr>x = 10, y = 20, flux = 500, flag = 0\<rparr>],
         xlim := (0, 400), ylim := (0, 200), mindist := 20\<rparr>) \<and>
   (20 :: real) = min (min (400 - 0) (200 - 0) / 10) 30"
proof -
  let ?c = "ImgCat_init ''/data/m51.fits'' 0
        (Some [\<lparr>x = 10, y = 20, flux = 500, flag = 0\<rparr>, \<lparr>x = 30, y = 40, flux = 900, flag = 0\<rparr>])"
  let ?c' = "?c\<lparr>starlist := [\<lparr>x = 30, y = 40, flux = 900, flag = 0\<rparr>, \<lparr>x = 10, y = 20, flux = 500, flag = 0\<rparr>],
         xlim := (0, 400), ylim := (0, 200), mindist := 20\<rparr>"
  have run: "makestarlist (readsexcat_maxflag 7) (\<lambda>l b. (0, 400, 0, 200)) False 200 ?c = Inr ?c'"
    by (simp add: makestarlist_def readsexcat_maxflag_def sortstarlistbyflux_def slice_to_def
          ImgCat_init_example)
  show ?thesis
    using mindist_formula [OF run] run by (simp add: ImgCat_init_example)
qed

theorem starlist_ranked_truncated_witness:
  "makestarlist (readsexcat_maxflag 7) (\<lambda>l b. (0, 400, 0, 200)) False 2
     (ImgCat_init ''/data/m51.fits'' 0
        (Some [\<lparr>x = 10, y = 20, flux = 500, flag = 0\<rparr>, \<lparr>x = 30, y = 40, flux = 900, flag = 0\<rparr>,
               \<lparr>x = 50, y = 60, flux = 700, flag = 0\<rparr>])) =
   Inr ((ImgCat_init ''/data/m51.fits'' 0
        (Some [\<lparr>x = 10, y = 20, flux = 500, flag = 0\<rparr>, \<lparr>x = 30, y = 40, flux = 900, flag = 0\<rparr>,
               \<lparr>x = 50, y = 60, flux = 700, flag = 0\<rparr>]))
        \<lparr>starlist := [\<lparr>x = 30, y = 40, flux = 900, flag = 0\<rparr>, \<lparr>x = 50, y = 60, flux = 700, flag = 0\<rparr>],
         xlim := (0, 400), ylim := (0, 200), mindist := 20\<rparr>) \<and>
   (0 :: int) \<le> 2 \<and>
   sorted_wrt (\<lambda>a b. flux b \<le> flux a)
     [\<lparr>x = 30, y = 40, flux = 900, flag = 0\<rparr>, \<lparr>x = 50, y = 60, flux = 700, flag = 0\<rparr>] \<and>
   length [\<lparr>x = 30, y = 40, flux = 900, flag = 0\<rparr>, \<lparr>x = 50, y = 60, flux = 700, flag = 0\<rparr>] =
     min (nat 2) (length [\<lparr>x = 10, y = 20, flux = 500, flag = 0\<rparr>, \<lparr>x = 30, y = 40, flux = 900, flag = 0\<rparr>,
               \<lparr>x = 50, y = 60, flux = 700, flag = 0\<rparr>]) \<and>
   int (length [\<lparr>x = 30, y = 40, flux = 900, flag = 0\<rparr>, \<lparr>x = 50, y = 60, flux = 700, flag = 0\<rparr>]) \<le> 2"
proof -
  let ?c = "ImgCat_init ''/data/m51.fits'' 0
        (Some [\<lparr>x = 10, y = 20, flux = 500, flag = 0\<rparr>, \<lparr>x = 30, y = 40, flux = 900, flag = 0\<rparr>,
               \<lparr>x = 50, y = 60, flux = 700, flag = 0\<rparr>])"
  let ?c' = "?c\<lparr>starlist := [\<lparr>x = 30, y = 40, flux = 900, flag = 0\<rparr>, \<lparr>x = 50, y = 60, flux = 700, flag = 0\<rparr>],
         xlim := (0, 400), ylim := (0, 200), mindist := 20\<rparr>"
  have run: "makestarlist (readsexcat_maxflag 7) (\<lambda>l b. (0, 400, 0, 200)) False 2 ?c = Inr ?c'"
    by (simp add: makestarlist_def readsexcat_maxflag_def sortstarlistbyflux_def slice_to_def
          ImgCat_init_example numeral_2_eq_2)
  show ?thesis
    using starlist_ranked_truncated [OF run] run by (simp add: ImgCat_init_example)
qed

text \<open>
  Claim C3, evaluated where it fails. With \<open>skipsaturated = True\<close> the reader is still
  called without a threshold and filters at its default, 7: a star with quality flag 5
  stays in the star list, for every bounding-box function.
\<close>

theorem skipsaturated_keeps_flag5:
  "\<exists>c'. makestarlist (readsexcat_maxflag 7) ar True 200
       (ImgCat_init ''/data/m51.fits'' 0
          (Some [\<lparr>x = 10, y = 20, flux = 500, flag = 5\<rparr>, \<lparr>x = 30, y = 40, flux = 900, flag = 0\<rparr>])) = Inr c' \<and>
     starlist c' = [\<lparr>x = 30, y = 40, flux = 900, flag = 0\<rparr>, \<lparr>x = 10, y = 20, flux = 500, flag = 5\<rparr>] \<and>
     map flag (starlist c') = [0, 5]"
  by (simp add: makestarlist_Inr readsexcat_maxflag_def sortstarlistbyflux_def slice_to_def
        ImgCat_init_example)

text \<open>
  Claim C4, as amended. Star list construction has no check for an empty result and no
  \<open>EmptyCatalog\<close> error of its own: it fails exactly when the catalog reader fails, with
  the reader's error; when the reader returns no star it returns normally, with an empty
  star list and with \<open>xlim\<close>, \<open>ylim\<close> and \<open>mindist\<close> set from the box that \<open>star.area\<close>
  gives for the empty list.
\<close>

theorem makestarlist_no_empty_check:
  "(makestarlist rd ar sk n c = Inl e \<longleftrightarrow> rd (cat c) = Inl e) \<and>
   (rd (cat c) = Inr [] \<longrightarrow>
      (\<exists>xmin xmax ymin ymax. ar [] (1 / 100) = (xmin, xmax, ymin, ymax) \<and>
         makestarlist rd ar sk n c =
           Inr (c\<lparr>starlist := [], xlim := (xmin, xmax), ylim := (ymin, ymax),
                  mindist := min (min (xmax - xmin) (ymax - ymin) / 10) 30\<rparr>)))"
proof (intro conjI impI)
  show "makestarlist rd ar sk n c = Inl e \<longleftrightarrow> rd (cat c) = Inl e"
    by (rule makestarlist_Inl)
next
  assume r: "rd (cat c) = Inr []"
  obtain xmin xmax ymin ymax where a: "ar [] (1 / 100) = (xmin, xmax, ymin, ymax)"
    by (cases "ar [] (1 / 100)") auto
  have "makestarlist rd ar sk n c =
          Inr (c\<lparr>starlist := [], xlim := (xmin, xmax), ylim := (ymin, ymax),
                 mindist := min (min (xmax - xmin) (ymax - ymin) / 10) 30\<rparr>)"
    using r a by (simp add: makestarlist_def sortstarlistbyflux_def slice_to_def)
  with a show "\<exists>xmin xmax ymin ymax. ar [] (1 / 100) = (xmin, xmax, ymin, ymax) \<and>
         makestarlist rd ar sk n c =
           Inr (c\<lparr>starlist := [], xlim := (xmin, xmax), ylim := (ymin, ymax),
                  mindist := min (min (xmax - xmin) (ymax - ymin) / 10) 30\<rparr>)"
    by blast
qed

theorem makestarlist_no_empty_check_witness:
  "readsexcat_maxflag 7 (cat (ImgCat_init ''/data/m51.fits'' 0
      (Some [\<lparr>x = 10, y = 20, flux = 500, flag = 9\<rparr>]))) = Inr [] \<and>
   makestarlist (readsexcat_maxflag 7) (\<lambda>l b. (0, 1, 0, 1)) True 200
     (ImgCat_init ''/data/m51.fits'' 0 (Some [\<lparr>x = 10, y = 20, flux = 500, flag = 9\<rparr>])) =
   Inr ((ImgCat_init ''/data/m51.fits'' 0 (Some [\<lparr>x = 10, y = 20, flux = 500, flag = 9\<rparr>]))
          \<lparr>starlist := [], xlim := (0, 1), ylim := (0, 1), mindist := 1 / 10\<rparr>)"
  using makestarlist_no_empty_check [of "readsexcat_maxflag 7" "\<lambda>l b. (0, 1, 0, 1)" True 200
      "ImgCat_init ''/data/m51.fits'' 0 (Some [\<lparr>x = 10, y = 20, flux = 500, flag = 9\<rparr>])" EmptyCatalog]
  by (simp add: readsexcat_maxflag_def ImgCat_init_example)

text \<open>
  Claim C4 as stated fails: for a catalog without stars the construction does not fail
  with \<open>EmptyCatalog\<close>; it returns an object whose star list, limits and \<open>mindist\<close> are set.
\<close>

theorem makestarlist_empty_counterexample:
  "makestarlist (readsexcat_maxflag 7) (\<lambda>l b. (0, 1, 0, 1)) False 200
     (ImgCat_init ''/data/m51.fits'' 0 (Some [])) \<noteq> Inl EmptyCatalog \<and>
   makestarlist (readsexcat_maxflag 7) (\<lambda>l b. (0, 1, 0, 1)) False 200
     (ImgCat_init ''/data/m51.fits'' 0 (Some [])) =
   Inr ((ImgCat_init ''/data/m51.fits'' 0 (Some []))
          \<lparr>starlist := [], xlim := (0, 1), ylim := (0, 1), mindist := 1 / 10\<rparr>)"
  by (simp add: makestarlist_def readsexcat_maxflag_def sortstarlistbyflux_def slice_to_def
        ImgCat_init_example)

section \<open>Properties of the constructor\<close>



lemma rfind_bounds: "- 1 \<le> rfind ch s \<and> rfind ch s < int (length s)"
  by (induction s) (auto simp: Let_def)

lemma rfind_neg: "rfind ch s < 0 \<longleftrightarrow> ch \<notin> set s"
  by (induction s) (auto simp: Let_def)

lemma rfind_split:
  "0 \<le> rfind ch s \<Longrightarrow>
   s = take (nat (rfind ch s)) s @ ch # drop (nat (rfind ch s) + 1) s \<and>
   ch \<notin> set (drop (nat (rfind ch s) + 1) s)"
proof (induction s)
  case Nil
  then show ?case by simp
next
  case (Cons a s)
  show ?case
  proof (cases "0 \<le> rfind ch s")
    case True
    then have "nat (rfind ch s + 1) = Suc (nat (rfind ch s))" by simp
    with True Cons.IH show ?thesis by (simp add: Let_def)
  next
    case False
    then have "ch \<notin> set s" using rfind_neg [of ch s] by simp
    with False Cons.prems show ?thesis by (auto simp: Let_def split: if_splits)
  qed
qed


lemma path_split_tail:
  "\<exists>dir. p = dir @ snd (path_split p) \<and> (dir = [] \<or> last dir = CHR ''/'') \<and>
     CHR ''/'' \<notin> set (snd (path_split p))"
proof (cases "0 \<le> rfind CHR ''/'' p")
  case True
  let ?r = "nat (rfind CHR ''/'' p)"
  from True have n: "nat (rfind CHR ''/'' p + 1) = ?r + 1" by simp
  from rfind_split [OF True]
  have p: "p = take ?r p @ CHR ''/'' # drop (?r + 1) p"
    and t: "CHR ''/'' \<notin> set (drop (?r + 1) p)" by blast+
  have tl: "snd (path_split p) = drop (?r + 1) p"
    by (simp add: path_split_def Let_def n)
  have "p = (take ?r p @ [CHR ''/'']) @ snd (path_split p)"
    using p by (simp add: tl)
  moreover have "last (take ?r p @ [CHR ''/'']) = CHR ''/''" by simp
  ultimately show ?thesis using t tl by metis
next
  case False
  then have "CHR ''/'' \<notin> set p" using rfind_neg [of "CHR ''/''" p] by simp
  moreover from False have "snd (path_split p) = p"
    by (simp add: path_split_def Let_def)
  ultimately show ?thesis by simp
qed

lemma splitext_loop_iff:
  "0 \<le> i \<Longrightarrow> d \<le> int (length p) \<Longrightarrow>
   splitext_loop p i d \<longleftrightarrow> (\<exists>j. i \<le> j \<and> j < d \<and> p ! nat j \<noteq> CHR ''.'')"
proof (induction p i d rule: splitext_loop.induct)
  case (1 p i d)
  show ?case
  proof (cases "i < d")
    case False
    then show ?thesis by (simp add: splitext_loop.simps [of p i d])
  next
    case True
    with "1.prems" have lt: "nat i < length p" by simp
    then have one: "take 1 (drop (nat i) p) = [p ! nat i]"
      by (simp add: take_Suc_conv_app_nth)
    show ?thesis
    proof (cases "p ! nat i = CHR ''.''")
      case False
      with True one have "splitext_loop p i d"
        by (simp add: splitext_loop.simps [of p i d])
      moreover from False True have "\<exists>j. i \<le> j \<and> j < d \<and> p ! nat j \<noteq> CHR ''.''"
        by (intro exI [of _ i]) simp
      ultimately show ?thesis by simp
    next
      case dot: True
      with True one have "splitext_loop p i d = splitext_loop p (i + 1) d"
        by (simp add: splitext_loop.simps [of p i d])
      also have "\<dots> \<longleftrightarrow> (\<exists>j. i + 1 \<le> j \<and> j < d \<and> p ! nat j \<noteq> CHR ''.'')"
        using True one dot "1.prems" by (intro "1.IH") auto
      also have "\<dots> \<longleftrightarrow> (\<exists>j. i \<le> j \<and> j < d \<and> p ! nat j \<noteq> CHR ''.'')"
      proof
        assume "\<exists>j. i + 1 \<le> j \<and> j < d \<and> p ! nat j \<noteq> CHR ''.''"
        then obtain j where "i + 1 \<le> j" "j < d" "p ! nat j \<noteq> CHR ''.''" by blast
        then have "i \<le> j \<and> j < d \<and> p ! nat j \<noteq> CHR ''.''" by simp
        then show "\<exists>j. i \<le> j \<and> j < d \<and> p ! nat j \<noteq> CHR ''.''" ..
      next
        assume "\<exists>j. i \<le> j \<and> j < d \<and> p ! nat j \<noteq> CHR ''.''"
        then obtain j where j: "i \<le> j" "j < d" "p ! nat j \<noteq> CHR ''.''" by blast
        with dot have "j \<noteq> i" by auto
        with j have "i + 1 \<le> j \<and> j < d \<and> p ! nat j \<noteq> CHR ''.''" by simp
        then show "\<exists>j. i + 1 \<le> j \<and> j < d \<and> p ! nat j \<noteq> CHR ''.''" ..
      qed
      finally show ?thesis .
    qed
  qed
qed


lemma splitext_filename:
  assumes "CHR ''/'' \<notin> set f"
  shows "f = fst (splitext f) @ snd (splitext f) \<and>
     (snd (splitext f) = [] \<and>
        CHR ''.'' \<notin> set (dropWhile (\<lambda>a. a = CHR ''.'') (fst (splitext f))) \<or>
      snd (splitext f) \<noteq> [] \<and> hd (snd (splitext f)) = CHR ''.'' \<and>
        CHR ''.'' \<notin> set (tl (snd (splitext f))) \<and>
        (\<exists>a \<in> set (fst (splitext f)). a \<noteq> CHR ''.''))"
proof -
  let ?d = "rfind CHR ''.'' f"
  from assms have sep: "rfind CHR ''/'' f = - 1"
    using rfind_neg [of "CHR ''/''" f] rfind_bounds [of "CHR ''/''" f] by simp
  have dlen: "?d < int (length f)" using rfind_bounds [of "CHR ''.''" f] by simp
  have loop: "splitext_loop f 0 ?d \<longleftrightarrow> (\<exists>j. 0 \<le> j \<and> j < ?d \<and> f ! nat j \<noteq> CHR ''.'')"
    using dlen by (intro splitext_loop_iff) simp_all
  show ?thesis
  proof (cases "0 \<le> ?d")
    case False
    then have "CHR ''.'' \<notin> set f" using rfind_neg [of "CHR ''.''" f] by simp
    then have "CHR ''.'' \<notin> set (dropWhile (\<lambda>a. a = CHR ''.'') f)"
      using set_dropWhileD by fastforce
    moreover from False have "splitext f = (f, [])"
      by (simp add: splitext_def Let_def sep)
    ultimately show ?thesis by simp
  next
    case True
    from rfind_split [OF True]
    have f: "f = take (nat ?d) f @ CHR ''.'' # drop (nat ?d + 1) f"
      and rest: "CHR ''.'' \<notin> set (drop (nat ?d + 1) f)" by blast+
    have dr: "drop (nat ?d) f = CHR ''.'' # drop (nat ?d + 1) f"
      using f by (metis append_take_drop_id same_append_eq)
    show ?thesis
    proof (cases "splitext_loop f 0 ?d")
      case lp: True
      then have sp: "splitext f = (take (nat ?d) f, drop (nat ?d) f)"
        using True by (simp add: splitext_def Let_def sep)
      from lp loop obtain j where j: "0 \<le> j" "j < ?d" "f ! nat j \<noteq> CHR ''.''" by blast
      then have "nat j < nat ?d" "nat j < length f" using dlen by simp_all
      then have "f ! nat j \<in> set (take (nat ?d) f)"
        by (metis in_set_conv_nth length_take min_less_iff_conj nth_take)
      with j have "\<exists>a \<in> set (take (nat ?d) f). a \<noteq> CHR ''.''" by blast
      then have ex: "\<exists>a \<in> set (fst (splitext f)). a \<noteq> CHR ''.''" by (simp add: sp)
      have cat: "f = fst (splitext f) @ snd (splitext f)" by (simp add: sp)
      have "snd (splitext f) = CHR ''.'' # drop (nat ?d + 1) f" by (simp add: sp dr)
      with rest have "snd (splitext f) \<noteq> []" "hd (snd (splitext f)) = CHR ''.''"
        "CHR ''.'' \<notin> set (tl (snd (splitext f)))" by simp_all
      with ex cat show ?thesis by blast
    next
      case lp: False
      then have sp: "splitext f = (f, [])"
        by (simp add: splitext_def Let_def sep)
      from lp loop have all: "\<forall>j. 0 \<le> j \<and> j < ?d \<longrightarrow> f ! nat j = CHR ''.''" by blast
      have "\<forall>a \<in> set (take (nat ?d) f). a = CHR ''.''"
      proof
        fix a assume "a \<in> set (take (nat ?d) f)"
        then obtain k where k: "k < length (take (nat ?d) f)" "take (nat ?d) f ! k = a"
          by (auto simp: in_set_conv_nth)
        then have "k < nat ?d" by simp
        with k have "a = f ! k" by simp
        moreover from \<open>k < nat ?d\<close> have "0 \<le> int k \<and> int k < ?d" by simp
        with all have "f ! nat (int k) = CHR ''.''" by blast
        ultimately show "a = CHR ''.''" by simp
      qed
      then have "\<forall>a \<in> set (take (nat ?d) f @ [CHR ''.'']). a = CHR ''.''" by simp
      then have "dropWhile (\<lambda>a. a = CHR ''.'') ((take (nat ?d) f @ [CHR ''.'']) @ drop (nat ?d + 1) f)
            = dropWhile (\<lambda>a. a = CHR ''.'') (drop (nat ?d + 1) f)"
        by (intro dropWhile_append2) blast
      moreover have "(take (nat ?d) f @ [CHR ''.'']) @ drop (nat ?d + 1) f = f"
        using f by simp
      ultimately have "dropWhile (\<lambda>a. a = CHR ''.'') f =
            dropWhile (\<lambda>a. a = CHR ''.'') (drop (nat ?d + 1) f)" by simp
      with rest have "CHR ''.'' \<notin> set (dropWhile (\<lambda>a. a = CHR ''.'') f)"
        using set_dropWhileD by fastforce
      then show ?thesis by (simp add: sp)
    qed
  qed
qed

lemma ImgCat_init_name: "name (ImgCat_init fp h ct) = fst (splitext (snd (path_split fp)))"
  by (simp add: ImgCat_init_def split: prod.splits)

text \<open>
  Claim C10. The constructor sets \<open>name\<close> to the final component of the path with its
  extension removed: the path is a directory part (empty or ending in \<open>/\<close>), then the
  name, then the extension, with no \<open>/\<close> in name and extension; the extension is either
  empty, and then the name has no dot after its leading dots, or it starts at the last
  dot of the component, and then the name has a character other than a dot. It sets
  \<open>quadlevel\<close> to 0, \<open>quadlist\<close> and \<open>starlist\<close> to the empty list and \<open>mindist\<close> to 0.
\<close>

theorem ImgCat_init_state:
  "name (ImgCat_init fp h ct) = fst (splitext (snd (path_split fp))) \<and>
   (\<exists>dir ext. fp = dir @ name (ImgCat_init fp h ct) @ ext \<and>
      (dir = [] \<or> last dir = CHR ''/'') \<and>
      CHR ''/'' \<notin> set (name (ImgCat_init fp h ct) @ ext) \<and>
      (ext = [] \<and>
         CHR ''.'' \<notin> set (dropWhile (\<lambda>a. a = CHR ''.'') (name (ImgCat_init fp h ct))) \<or>
       ext \<noteq> [] \<and> hd ext = CHR ''.'' \<and> CHR ''.'' \<notin> set (tl ext) \<and>
         (\<exists>a \<in> set (name (ImgCat_init fp h ct)). a \<noteq> CHR ''.''))) \<and>
   quadlevel (ImgCat_init fp h ct) = 0 \<and>
   quadlist (ImgCat_init fp h ct) = [] \<and>
   starlist (ImgCat_init fp h ct) = [] \<and>
   mindist (ImgCat_init fp h ct) = 0"
proof -
  let ?f = "snd (path_split fp)"
  obtain dir where dir: "fp = dir @ ?f" "dir = [] \<or> last dir = CHR ''/''"
    and nosep: "CHR ''/'' \<notin> set ?f"
    using path_split_tail [of fp] by blast
  note sx = splitext_filename [OF nosep]
  let ?n = "fst (splitext ?f)" and ?e = "snd (splitext ?f)"
  have nm: "name (ImgCat_init fp h ct) = ?n" by (rule ImgCat_init_name)
  have "fp = dir @ ?n @ ?e" using dir(1) sx by simp
  moreover have "CHR ''/'' \<notin> set (?n @ ?e)" using nosep sx by simp
  ultimately have "\<exists>dir ext. fp = dir @ ?n @ ext \<and>
      (dir = [] \<or> last dir = CHR ''/'') \<and>
      CHR ''/'' \<notin> set (?n @ ext) \<and>
      (ext = [] \<and> CHR ''.'' \<notin> set (dropWhile (\<lambda>a. a = CHR ''.'') ?n) \<or>
       ext \<noteq> [] \<and> hd ext = CHR ''.'' \<and> CHR ''.'' \<notin> set (tl ext) \<and>
         (\<exists>a \<in> set ?n. a \<noteq> CHR ''.''))"
    using dir(2) sx by blast
  moreover have "quadlevel (ImgCat_init fp h ct) = 0 \<and> quadlist (ImgCat_init fp h ct) = [] \<and>
      starlist (ImgCat_init fp h ct) = [] \<and> mindist (ImgCat_init fp h ct) = 0"
    by (simp add: ImgCat_init_def split: prod.splits)
  ultimately show ?thesis unfolding nm by simp
qed

theorem ImgCat_init_state_witness:
  "name (ImgCat_init ''/data/m51.fits'' 0 None) = ''m51'' \<and>
   ''/data/m51.fits'' = ''/data/'' @ ''m51'' @ ''.fits'' \<and>
   quadlevel (ImgCat_init ''/data/m51.fits'' 0 None) = 0"
  using ImgCat_init_state [of "''/data/m51.fits''" 0 None]
  by (simp add: ImgCat_init_example)

end
